theory Spec2Isabelle
  imports Main
begin

section \<open>Python values\<close>

text \<open>
  The scraper builds untyped dictionaries. A dictionary is an association list in insertion
  order (the keys of every dictionary literal of the source are distinct); its values are
  strings, lists and dictionaries. Text is modelled over 8-bit characters.
\<close>

datatype pyval = Str string | List "pyval list" | Dict "(string \<times> pyval) list"

type_synonym pydict = "(string \<times> pyval) list"

text \<open>\<^verbatim>\<open>key in d\<close> and \<^verbatim>\<open>d.keys()\<close>.\<close>

definition has_key :: "string \<Rightarrow> pydict \<Rightarrow> bool" where
  "has_key k d = (map_of d k \<noteq> None)"

definition keys :: "pydict \<Rightarrow> string list" where
  "keys d = map fst d"

text \<open>
  An exception object. \<open>Raised msg\<close> is any subclass of \<^verbatim>\<open>Exception\<close> raised by the browser
  driver, the file system, the parser or pickle, with \<^verbatim>\<open>str(e) == msg\<close>.
\<close>

datatype exn = ZeroDivisionError | Raised string

fun str_of_exn :: "exn \<Rightarrow> string" where
  "str_of_exn ZeroDivisionError = ''division by zero''"
| "str_of_exn (Raised msg) = msg"

subsection \<open>String operations\<close>

text \<open>\<^verbatim>\<open>str.isspace\<close> on the code points below 256.\<close>

definition isspace :: "char \<Rightarrow> bool" where
  "isspace c = (let n = (of_char c :: nat) in
     (9 \<le> n \<and> n \<le> 13) \<or> (28 \<le> n \<and> n \<le> 32) \<or> n = 133 \<or> n = 160)"

text \<open>\<^verbatim>\<open>s.strip()\<close>: leading and trailing whitespace removed.\<close>

definition strip :: "string \<Rightarrow> string" where
  "strip s = rev (dropWhile isspace (rev (dropWhile isspace s)))"

text \<open>\<^verbatim>\<open>sub in s\<close> on strings: \<open>sub\<close> occurs in \<open>s\<close> as a contiguous substring.\<close>

fun contains :: "string \<Rightarrow> string \<Rightarrow> bool" where
  "contains sub [] = (sub = [])"
| "contains sub (c # cs) = (take (length sub) (c # cs) = sub \<or> contains sub cs)"

text \<open>\<^verbatim>\<open>' '.join(toks)\<close>.\<close>

fun join_space :: "string list \<Rightarrow> string" where
  "join_space [] = []"
| "join_space [t] = t"
| "join_space (t # u # ts) = t @ '' '' @ join_space (u # ts)"

section \<open>The DOM snapshot (BeautifulSoup)\<close>

text \<open>
  A parsed page is a tree of tags and text nodes. Of a tag's attributes the scraper reads
  only \<^verbatim>\<open>id\<close> (a string, or absent) and \<^verbatim>\<open>class\<close> (multi-valued in BeautifulSoup: the
  list of its whitespace-separated values, or absent). The soup object itself is the root
  tag.
\<close>

datatype node =
    Tag string "string option" "string list option" "node list"
  | NavigableString string

text \<open>The descendants of a node in document order (the node itself is not one).\<close>

fun descendants :: "node \<Rightarrow> node list" where
  "descendants (Tag nm i c ks) = concat (map (\<lambda>k. k # descendants k) ks)"
| "descendants (NavigableString s) = []"

text \<open>\<^verbatim>\<open>get_text()\<close>: the text nodes below a node, concatenated in document order.\<close>

fun get_text :: "node \<Rightarrow> string" where
  "get_text (NavigableString s) = s"
| "get_text (Tag nm i c ks) = concat (map get_text ks)"

text \<open>
  \<^verbatim>\<open>find_all\<close> collects the matching descendants in document order; \<^verbatim>\<open>find\<close> is
  \<^verbatim>\<open>find_all\<close> with limit 1, returning the first match or \<^verbatim>\<open>None\<close>.
\<close>

definition soup_find_all :: "(node \<Rightarrow> bool) \<Rightarrow> node \<Rightarrow> node list" where
  "soup_find_all P n = filter P (descendants n)"

definition soup_find :: "(node \<Rightarrow> bool) \<Rightarrow> node \<Rightarrow> node option" where
  "soup_find P n = (case soup_find_all P n of [] \<Rightarrow> None | m # _ \<Rightarrow> Some m)"

text \<open>
  The attribute filters of the source. \<^verbatim>\<open>lambda x: x and sub in x\<close> on a single-valued
  attribute receives the value, or \<^verbatim>\<open>None\<close> when the attribute is absent. On the
  multi-valued \<^verbatim>\<open>class\<close> attribute BeautifulSoup tries the filter on every value and then
  on the values joined by spaces. A plain string filter matches by equality in the same way.
\<close>

definition str_has :: "string \<Rightarrow> string \<Rightarrow> bool" where
  "str_has sub x = (x \<noteq> [] \<and> contains sub x)"

definition id_has :: "string \<Rightarrow> string option \<Rightarrow> bool" where
  "id_has sub v = (case v of None \<Rightarrow> False | Some x \<Rightarrow> str_has sub x)"

definition class_has :: "string \<Rightarrow> string list option \<Rightarrow> bool" where
  "class_has sub v = (case v of None \<Rightarrow> False
     | Some toks \<Rightarrow> list_ex (str_has sub) toks \<or> str_has sub (join_space toks))"

definition class_is :: "string \<Rightarrow> string list option \<Rightarrow> bool" where
  "class_is s v = (case v of None \<Rightarrow> False
     | Some toks \<Rightarrow> list_ex (\<lambda>t. t = s) toks \<or> join_space toks = s)"

fun tag_with_class :: "string \<Rightarrow> (string list option \<Rightarrow> bool) \<Rightarrow> node \<Rightarrow> bool" where
  "tag_with_class nm f (Tag n i c ks) = (n = nm \<and> f c)"
| "tag_with_class nm f (NavigableString s) = False"

fun tag_with_id :: "string \<Rightarrow> (string option \<Rightarrow> bool) \<Rightarrow> node \<Rightarrow> bool" where
  "tag_with_id nm f (Tag n i c ks) = (n = nm \<and> f i)"
| "tag_with_id nm f (NavigableString s) = False"

section \<open>The field extractors\<close>

text \<open>
  Every extractor wraps its body in \<^verbatim>\<open>try ... except Exception\<close> and falls back to its
  default. The tree operations above are total, so the handlers are never entered in the
  model. A tag object is always truthy, also when it has no text.
\<close>

definition extract_name :: "node \<Rightarrow> string" where
  "extract_name soup =
     (case soup_find (tag_with_class ''h1'' (class_has ''text-heading-xlarge'')) soup of
        Some name_element \<Rightarrow> strip (get_text name_element)
      | None \<Rightarrow>
          (case soup_find (tag_with_class ''h1'' (class_is ''pv-text-details__left-panel'')) soup of
             Some name_element \<Rightarrow> strip (get_text name_element)
           | None \<Rightarrow> ''N/A''))"

definition extract_headline :: "node \<Rightarrow> string" where
  "extract_headline soup =
     (case soup_find (tag_with_class ''div'' (class_has ''text-body-medium'')) soup of
        Some headline \<Rightarrow> strip (get_text headline)
      | None \<Rightarrow> ''N/A'')"

definition extract_location :: "node \<Rightarrow> string" where
  "extract_location soup =
     (case soup_find (tag_with_class ''span'' (class_has ''text-body-small'')) soup of
        Some location \<Rightarrow> strip (get_text location)
      | None \<Rightarrow> ''N/A'')"

definition extract_about :: "node \<Rightarrow> string" where
  "extract_about soup =
     (case soup_find (tag_with_class ''div'' (class_has ''pv-about'')) soup of
        Some about_section \<Rightarrow>
          (case soup_find (tag_with_class ''div'' (class_has ''inline-show-more-text'')) about_section of
             Some about_text \<Rightarrow> strip (get_text about_text)
           | None \<Rightarrow> ''N/A'')
      | None \<Rightarrow> ''N/A'')"

text \<open>\<^verbatim>\<open>x.get_text().strip() if x else 'N/A'\<close> on the result of a \<^verbatim>\<open>find\<close>.\<close>

definition text_or_na :: "node option \<Rightarrow> string" where
  "text_or_na x = (case x of Some n \<Rightarrow> strip (get_text n) | None \<Rightarrow> ''N/A'')"

definition exp_data :: "node \<Rightarrow> pyval" where
  "exp_data item =
     (let title = soup_find (tag_with_class ''div'' (class_has ''mr1'')) item;
          company = soup_find (tag_with_class ''span'' (class_has ''t-14'')) item
      in Dict [(''title'', Str (text_or_na title)), (''company'', Str (text_or_na company))])"

definition extract_experience :: "node \<Rightarrow> pyval list" where
  "extract_experience soup =
     (case soup_find (tag_with_id ''section'' (id_has ''experience'')) soup of
        Some exp_section \<Rightarrow>
          (let exp_items = soup_find_all (tag_with_class ''li'' (class_has ''profile-section-card'')) exp_section
           in map exp_data (take 5 exp_items))
      | None \<Rightarrow> [])"

definition edu_data :: "node \<Rightarrow> pyval" where
  "edu_data item =
     (let school = soup_find (tag_with_class ''div'' (class_has ''mr1'')) item;
          degree = soup_find (tag_with_class ''span'' (class_has ''t-14'')) item
      in Dict [(''school'', Str (text_or_na school)), (''degree'', Str (text_or_na degree))])"

definition extract_education :: "node \<Rightarrow> pyval list" where
  "extract_education soup =
     (case soup_find (tag_with_id ''section'' (id_has ''education'')) soup of
        Some edu_section \<Rightarrow>
          (let edu_items = soup_find_all (tag_with_class ''li'' (class_has ''profile-section-card'')) edu_section
           in map edu_data (take 3 edu_items))
      | None \<Rightarrow> [])"

text \<open>A skill is appended only when its stripped text is non-empty.\<close>

definition extract_skills :: "node \<Rightarrow> pyval list" where
  "extract_skills soup =
     (case soup_find (tag_with_id ''section'' (id_has ''skills'')) soup of
        Some skills_section \<Rightarrow>
          (let skill_items = soup_find_all (tag_with_class ''div'' (class_has ''mr1'')) skills_section
           in map Str (filter (\<lambda>skill_text. skill_text \<noteq> [])
                (map (\<lambda>item. strip (get_text item)) (take 10 skill_items))))
      | None \<Rightarrow> [])"

section \<open>One page visit\<close>

text \<open>
  What the browser does during one visit is not decided by the scraper. It is given as a
  script of the visit: whether \<^verbatim>\<open>driver.get(url)\<close> raises, what the \<open>n\<close>-th reading of
  \<^verbatim>\<open>document.body.scrollHeight\<close> and the reading of \<^verbatim>\<open>window.innerHeight\<close> return
  or raise, whether the \<open>k\<close>-th \<^verbatim>\<open>window.scrollTo\<close> raises, the entropy behind the \<open>k\<close>-th
  \<^verbatim>\<open>random.randint\<close>, and what reading \<^verbatim>\<open>driver.page_source\<close> and parsing it with
  BeautifulSoup raise or return. Sleeps are not modelled.
\<close>

record page =
  get_error :: "exn option"
  height :: "nat \<Rightarrow> exn + int"
  viewport :: "exn + int"
  scroll_error :: "nat \<Rightarrow> exn option"
  draws :: "nat \<Rightarrow> nat"
  page_source :: "exn + node"

text \<open>\<^verbatim>\<open>random.randint(a, b)\<close>: an integer \<open>N\<close> with \<open>a \<le> N \<le> b\<close>, from the entropy \<open>r\<close>.\<close>

definition randint :: "int \<Rightarrow> int \<Rightarrow> nat \<Rightarrow> int" where
  "randint a b r = a + int (r mod nat (b - a + 1))"

subsection \<open>Scrolling\<close>

text \<open>
  The \<^verbatim>\<open>while\<close> loop of \<^verbatim>\<open>_scroll_slowly\<close>, entered at its test with \<open>k\<close> iterations
  done. It has no iteration cap: where it runs forever the value is \<open>None\<close>. An exception
  leaves the loop for the handler of \<^verbatim>\<open>_scroll_slowly\<close>; a normal exit gives the final
  position and the last measured height.
\<close>

partial_function (option) scroll_loop :: "page \<Rightarrow> nat \<Rightarrow> int \<Rightarrow> int \<Rightarrow> (exn + int \<times> int) option" where
  "scroll_loop p k current_position total_height =
     (if current_position < total_height then
        (let scroll_distance = randint 200 400 (draws p k);
             new_position = current_position + scroll_distance
         in case scroll_error p k of
              Some e \<Rightarrow> Some (Inl e)
            | None \<Rightarrow>
                (case height p (Suc k) of
                   Inl e \<Rightarrow> Some (Inl e)
                 | Inr new_height \<Rightarrow>
                     if new_position \<ge> new_height then Some (Inr (new_position, new_height))
                     else scroll_loop p (Suc k) new_position new_height))
      else Some (Inr (current_position, total_height)))"

declare scroll_loop.simps [code]

text \<open>
  \<^verbatim>\<open>_scroll_slowly\<close>: the two initial measurements, then the loop from position 0. The
  handler prints the exception and returns, so \<open>Some (Inl e)\<close> is a normal return as well.
\<close>

definition scroll_slowly :: "page \<Rightarrow> (exn + int \<times> int) option" where
  "scroll_slowly p =
     (case height p 0 of
        Inl e \<Rightarrow> Some (Inl e)
      | Inr total_height \<Rightarrow>
          (case viewport p of
             Inl e \<Rightarrow> Some (Inl e)
           | Inr viewport_height \<Rightarrow> scroll_loop p 0 0 total_height))"

subsection \<open>Scraping one profile\<close>

text \<open>The dictionary literal \<^verbatim>\<open>profile_data\<close> of \<^verbatim>\<open>scrape_profile\<close>.\<close>

definition profile_data :: "string \<Rightarrow> node \<Rightarrow> pydict" where
  "profile_data profile_url soup =
     [(''url'', Str profile_url),
      (''name'', Str (extract_name soup)),
      (''headline'', Str (extract_headline soup)),
      (''location'', Str (extract_location soup)),
      (''about'', Str (extract_about soup)),
      (''experience'', List (extract_experience soup)),
      (''education'', List (extract_education soup)),
      (''skills'', List (extract_skills soup))]"

text \<open>The dictionary returned by the \<^verbatim>\<open>except Exception as e\<close> branch.\<close>

definition error_data :: "string \<Rightarrow> exn \<Rightarrow> pydict" where
  "error_data profile_url e = [(''url'', Str profile_url), (''error'', Str (str_of_exn e))]"

text \<open>
  \<^verbatim>\<open>scrape_profile\<close>. \<open>None\<close>: the call never returns, because the scroll loop runs
  forever.
\<close>

definition scrape_profile :: "page \<Rightarrow> string \<Rightarrow> pydict option" where
  "scrape_profile p profile_url =
     (case get_error p of
        Some e \<Rightarrow> Some (error_data profile_url e)
      | None \<Rightarrow>
          (case scroll_slowly p of
             None \<Rightarrow> None
           | Some scrolled \<Rightarrow>
               (case page_source p of
                  Inl e \<Rightarrow> Some (error_data profile_url e)
                | Inr soup \<Rightarrow> Some (profile_data profile_url soup))))"

section \<open>The batch\<close>

text \<open>
  The web as the batch sees it: the script of the \<open>i\<close>-th visit (counted from 0) when it
  goes to a given URL.
\<close>

type_synonym web = "nat \<Rightarrow> string \<Rightarrow> page"

text \<open>
  The local variables of \<^verbatim>\<open>scrape_multiple_profiles\<close>. The function returns
  \<^verbatim>\<open>all_profiles\<close> and prints the two counters.
\<close>

record batch =
  all_profiles :: "pydict list"
  successful :: nat
  failed :: nat

text \<open>One iteration of the \<^verbatim>\<open>for\<close> loop after \<^verbatim>\<open>scrape_profile\<close> has returned.\<close>

definition tally :: "pydict \<Rightarrow> batch \<Rightarrow> batch" where
  "tally data b =
     (if has_key ''error'' data
      then b\<lparr>all_profiles := all_profiles b @ [data], failed := failed b + 1\<rparr>
      else b\<lparr>all_profiles := all_profiles b @ [data], successful := successful b + 1\<rparr>)"

text \<open>The \<^verbatim>\<open>for\<close> loop over the URLs that are left, \<open>i\<close> visits done.\<close>

fun batch_loop :: "web \<Rightarrow> nat \<Rightarrow> string list \<Rightarrow> batch \<Rightarrow> batch option" where
  "batch_loop w i [] b = Some b"
| "batch_loop w i (url # urls) b =
     (case scrape_profile (w i url) url of
        None \<Rightarrow> None
      | Some data \<Rightarrow> batch_loop w (Suc i) urls (tally data b))"

text \<open>
  \<^verbatim>\<open>scrape_multiple_profiles\<close>. After the loop the CSV writer runs (it catches its own
  exceptions and does not touch \<^verbatim>\<open>all_profiles\<close>; not modelled), then the summary is
  printed. The last line of the summary divides \<^verbatim>\<open>successful\<close> by
  \<^verbatim>\<open>len(profile_urls)\<close>, which raises on an empty list, before \<^verbatim>\<open>return all_profiles\<close>
  is reached.
\<close>

definition scrape_multiple_profiles :: "web \<Rightarrow> string list \<Rightarrow> (exn + batch) option" where
  "scrape_multiple_profiles w profile_urls =
     (case batch_loop w 0 profile_urls \<lparr>all_profiles = [], successful = 0, failed = 0\<rparr> of
        None \<Rightarrow> None
      | Some b \<Rightarrow>
          if length profile_urls = 0 then Some (Inl ZeroDivisionError) else Some (Inr b))"

section \<open>The session store\<close>

text \<open>
  A cookie as the browser driver hands it out, with the fields the session keeps. The
  scraper never looks inside one.
\<close>

record cookie =
  cookie_name :: string
  cookie_value :: string
  cookie_domain :: string
  cookie_path :: string
  cookie_expiry :: "int option"

text \<open>
  The browser driver: the calls that changed it so far, oldest first, and how it answers
  (whether a navigation or the adding of a cookie raises, and what
  \<^verbatim>\<open>driver.get_cookies()\<close> returns or raises).
\<close>

datatype driver_call = Navigate string | Add_cookie cookie

record driver =
  calls :: "driver_call list"
  navigate_error :: "string \<Rightarrow> exn option"
  add_cookie_error :: "cookie \<Rightarrow> exn option"
  get_cookies :: "exn + cookie list"

definition driver_get :: "string \<Rightarrow> driver \<Rightarrow> exn option \<times> driver" where
  "driver_get url d = (navigate_error d url, d\<lparr>calls := calls d @ [Navigate url]\<rparr>)"

definition add_cookie :: "cookie \<Rightarrow> driver \<Rightarrow> exn option \<times> driver" where
  "add_cookie c d = (add_cookie_error d c, d\<lparr>calls := calls d @ [Add_cookie c]\<rparr>)"

text \<open>
  The state the two cookie methods work on: \<^verbatim>\<open>self.cookies_file\<close>, \<^verbatim>\<open>self.driver\<close>
  and the file system (the content of every existing file, and whether opening a path
  for writing or for reading raises).
\<close>

record session =
  cookies_file :: string
  the_driver :: driver
  files :: "string \<rightharpoonup> string"
  open_wb_error :: "string \<Rightarrow> exn option"
  open_rb_error :: "string \<Rightarrow> exn option"

text \<open>
  The \<^verbatim>\<open>pickle\<close> module is not part of the repository; it is a parameter: what
  \<^verbatim>\<open>pickle.dump\<close> writes for a cookie list, and what \<^verbatim>\<open>pickle.load\<close> makes of a file
  content (an exception also when the content is not a list to iterate over).
\<close>

record pickle =
  dumps :: "cookie list \<Rightarrow> string"
  loads :: "string \<Rightarrow> exn + cookie list"

text \<open>
  The \<^verbatim>\<open>try\<close> block of \<^verbatim>\<open>save_cookies\<close>. Opening the file for writing empties it, so
  it stays empty when \<^verbatim>\<open>get_cookies\<close> raises afterwards.
\<close>

definition save_cookies_try :: "pickle \<Rightarrow> session \<Rightarrow> exn option \<times> session" where
  "save_cookies_try pk s =
     (case open_wb_error s (cookies_file s) of
        Some e \<Rightarrow> (Some e, s)
      | None \<Rightarrow>
          (case get_cookies (the_driver s) of
             Inl e \<Rightarrow> (Some e, s\<lparr>files := (files s)(cookies_file s \<mapsto> [])\<rparr>)
           | Inr cookies \<Rightarrow> (None, s\<lparr>files := (files s)(cookies_file s \<mapsto> dumps pk cookies)\<rparr>)))"

text \<open>\<^verbatim>\<open>save_cookies\<close>: the handler prints the exception; the method returns in both cases.\<close>

definition save_cookies :: "pickle \<Rightarrow> session \<Rightarrow> session" where
  "save_cookies pk s = (case save_cookies_try pk s of (Some e, s') \<Rightarrow> s' | (None, s') \<Rightarrow> s')"

text \<open>
  The loop over the loaded cookies: a cookie the driver refuses is skipped
  (\<^verbatim>\<open>except Exception: continue\<close>).
\<close>

fun add_cookies :: "cookie list \<Rightarrow> driver \<Rightarrow> driver" where
  "add_cookies [] d = d"
| "add_cookies (c # cs) d =
     (case add_cookie c d of
        (Some e, d') \<Rightarrow> add_cookies cs d'
      | (None, d') \<Rightarrow> add_cookies cs d')"

text \<open>The \<^verbatim>\<open>try\<close> block of \<^verbatim>\<open>load_cookies\<close>, entered when the cookie file exists.\<close>

definition load_cookies_try :: "pickle \<Rightarrow> string \<Rightarrow> session \<Rightarrow> (exn + bool) \<times> session" where
  "load_cookies_try pk content s =
     (case driver_get ''https://www.linkedin.com'' (the_driver s) of
        (Some e, d) \<Rightarrow> (Inl e, s\<lparr>the_driver := d\<rparr>)
      | (None, d) \<Rightarrow>
          (case open_rb_error s (cookies_file s) of
             Some e \<Rightarrow> (Inl e, s\<lparr>the_driver := d\<rparr>)
           | None \<Rightarrow>
               (case loads pk content of
                  Inl e \<Rightarrow> (Inl e, s\<lparr>the_driver := d\<rparr>)
                | Inr cookies \<Rightarrow> (Inr True, s\<lparr>the_driver := add_cookies cookies d\<rparr>))))"

text \<open>
  \<^verbatim>\<open>load_cookies\<close>: \<^verbatim>\<open>False\<close> when the file does not exist, and \<^verbatim>\<open>False\<close> from the
  handler when the \<^verbatim>\<open>try\<close> block raised.
\<close>

definition load_cookies :: "pickle \<Rightarrow> session \<Rightarrow> bool \<times> session" where
  "load_cookies pk s =
     (case files s (cookies_file s) of
        None \<Rightarrow> (False, s)
      | Some content \<Rightarrow>
          (case load_cookies_try pk content s of
             (Inl e, s') \<Rightarrow> (False, s')
           | (Inr r, s') \<Rightarrow> (r, s')))"

text \<open>The cookies handed to the driver, in call order.\<close>

fun cookies_added :: "driver_call list \<Rightarrow> cookie list" where
  "cookies_added [] = []"
| "cookies_added (Navigate url # cs) = cookies_added cs"
| "cookies_added (Add_cookie c # cs) = c # cookies_added cs"

section \<open>Notions of the specification\<close>







abbreviation about_div :: "node \<Rightarrow> bool" where
  "about_div \<equiv> tag_with_class ''div'' (class_has ''pv-about'')"

abbreviation about_inner :: "node \<Rightarrow> bool" where
  "about_inner \<equiv> tag_with_class ''div'' (class_has ''inline-show-more-text'')"

text \<open>
  The two shapes of a profile record. In the first, every core field holds a string that
  is the sentinel or the stripped text of a node of the snapshot, and every list field
  holds a list. In the second, \<^verbatim>\<open>error\<close> is set and no core or list field is present.
\<close>

definition core_fields :: "string list" where
  "core_fields = [''name'', ''headline'', ''location'', ''about'']"

definition list_fields :: "string list" where
  "list_fields = [''experience'', ''education'', ''skills'']"

definition node_texts :: "node \<Rightarrow> string list" where
  "node_texts soup = map (\<lambda>n. strip (get_text n)) (descendants soup)"

definition core_value :: "string \<Rightarrow> node \<Rightarrow> pyval option \<Rightarrow> bool" where
  "core_value sentinel soup v =
     (case v of Some (Str s) \<Rightarrow> s = sentinel \<or> s \<in> set (node_texts soup) | _ \<Rightarrow> False)"

definition list_value :: "pyval option \<Rightarrow> bool" where
  "list_value v = (case v of Some (List xs) \<Rightarrow> True | _ \<Rightarrow> False)"

definition extracted_shape :: "string \<Rightarrow> node \<Rightarrow> pydict \<Rightarrow> bool" where
  "extracted_shape sentinel soup r =
     (list_all (\<lambda>k. core_value sentinel soup (map_of r k)) core_fields \<and>
      list_all (\<lambda>k. list_value (map_of r k)) list_fields)"

definition error_shape :: "pydict \<Rightarrow> bool" where
  "error_shape r =
     (has_key ''error'' r \<and> list_all (\<lambda>k. \<not> has_key k r) (core_fields @ list_fields))"

text \<open>The first shape, for the snapshot that a visit parsed (none when parsing raised).\<close>

definition snapshot_shape :: "string \<Rightarrow> page \<Rightarrow> pydict \<Rightarrow> bool" where
  "snapshot_shape sentinel p r =
     (case page_source p of Inl e \<Rightarrow> False | Inr soup \<Rightarrow> extracted_shape sentinel soup r)"

text \<open>The counts of a batch are those derived by scanning its records for \<^verbatim>\<open>error\<close>.\<close>

definition counted :: "batch \<Rightarrow> bool" where
  "counted b =
     (failed b = length (filter (has_key ''error'') (all_profiles b)) \<and>
      successful b = length (filter (\<lambda>d. \<not> has_key ''error'' d) (all_profiles b)))"

section \<open>Example inputs\<close>

definition jane_heading :: node where
  "jane_heading =
     Tag ''h1'' None (Some [''text-heading-xlarge'', ''inline'']) [NavigableString '' Jane Doe '']"

definition jane_soup :: node where
  "jane_soup =
     Tag ''[document]'' None None [Tag ''html'' None None [Tag ''body'' None None [jane_heading]]]"


definition blank_soup :: node where
  "blank_soup = Tag ''[document]'' None None []"

definition card :: "string \<Rightarrow> node" where
  "card t =
     Tag ''li'' None (Some [''profile-section-card''])
       [Tag ''div'' None (Some [''mr1'', ''t-bold'']) [NavigableString t]]"

text \<open>Seven experience entries, four education entries and twelve skills.\<close>

definition crowded_soup :: node where
  "crowded_soup =
     Tag ''[document]'' None None
       [Tag ''section'' (Some ''experience-section'') None
          (map card [''Engineer'', ''Analyst'', ''Intern'', ''Tutor'', ''Clerk'', ''Cook'', ''Courier'']),
        Tag ''section'' (Some ''education-section'') None
          (map card [''MIT'', ''ETH'', ''IIT'', ''TUM'']),
        Tag ''section'' (Some ''skills-section'') None
          (map card [''SQL'', ''Python'', ''Go'', ''Rust'', ''Java'', ''Scala'', ''Kotlin'', ''Swift'',
             ''Ruby'', ''Perl'', ''Lua'', ''Elm''])]"

text \<open>
  A visit that loads: the document is \<open>h\<close> pixels high at every measurement, and the
  parsed page source is \<open>soup\<close>. The \<open>k\<close>-th scroll step is \<open>200 + (r + k) mod 201\<close>.
\<close>

definition loaded :: "int \<Rightarrow> nat \<Rightarrow> node \<Rightarrow> page" where
  "loaded h r soup =
     \<lparr>get_error = None, height = (\<lambda>n. Inr h), viewport = Inr 800,
      scroll_error = (\<lambda>k. None), draws = (\<lambda>k. r + k), page_source = Inr soup\<rparr>"

text \<open>A visit whose navigation times out.\<close>

definition timed_out :: page where
  "timed_out =
     \<lparr>get_error = Some (Raised ''timeout''), height = (\<lambda>n. Inl (Raised ''no page'')),
      viewport = Inl (Raised ''no page''), scroll_error = (\<lambda>k. None), draws = (\<lambda>k. 0),
      page_source = Inl (Raised ''no page'')\<rparr>"

definition three_urls :: "string list" where
  "three_urls = [''https://www.linkedin.com/in/a/'', ''https://www.linkedin.com/in/b/'',
     ''https://www.linkedin.com/in/c/'']"

text \<open>A web where the second visit times out and every other visit loads.\<close>

definition second_fails :: web where
  "second_fails i url = (if i = 1 then timed_out else loaded 500 i jane_soup)"

definition li_at :: cookie where
  "li_at = \<lparr>cookie_name = ''li_at'', cookie_value = ''AQED'', cookie_domain = ''.www.linkedin.com'',
     cookie_path = ''/'', cookie_expiry = Some 1790000000\<rparr>"

definition jsession :: cookie where
  "jsession = \<lparr>cookie_name = ''JSESSIONID'', cookie_value = ''ajax:1'', cookie_domain = ''.www.linkedin.com'',
     cookie_path = ''/'', cookie_expiry = None\<rparr>"

text \<open>A toy serialisation, which knows one cookie list.\<close>

definition toy_pickle :: pickle where
  "toy_pickle =
     \<lparr>dumps = (\<lambda>cs. if cs = [li_at, jsession] then ''two cookies'' else ''other''),
      loads = (\<lambda>content. if content = ''two cookies'' then Inr [li_at, jsession]
                 else Inl (Raised ''UnpicklingError''))\<rparr>"

text \<open>A logged-in browser holding two cookies, which refuses to add the second one back.\<close>

definition logged_in :: driver where
  "logged_in =
     \<lparr>calls = [], navigate_error = (\<lambda>url. None),
      add_cookie_error = (\<lambda>c. if c = jsession then Some (Raised ''invalid cookie'') else None),
      get_cookies = Inr [li_at, jsession]\<rparr>"

definition first_run :: session where
  "first_run =
     \<lparr>cookies_file = ''linkedin_cookies.pkl'', the_driver = logged_in, files = Map.empty,
      open_wb_error = (\<lambda>path. None), open_rb_error = (\<lambda>path. None)\<rparr>"

text \<open>
  The next run after the cookies of \<open>first_run\<close> were saved: the same files, a browser
  that has not been used yet.
\<close>

definition next_run :: session where
  "next_run = (save_cookies toy_pickle first_run)\<lparr>the_driver := logged_in\<rparr>"



section \<open>Lemmas on the model\<close>

subsection \<open>Stripping\<close>


subsection \<open>Searching the tree\<close>



lemma soup_find_in: "soup_find P n = Some m \<Longrightarrow> m \<in> set (descendants n)"
proof -
  assume "soup_find P n = Some m"
  then obtain rest where "filter P (descendants n) = m # rest"
    by (auto simp: soup_find_def soup_find_all_def split: list.splits)
  then have "m \<in> set (filter P (descendants n))" by simp
  then show ?thesis by simp
qed

lemma descendants_trans:
  "m \<in> set (descendants n) \<Longrightarrow> x \<in> set (descendants m) \<Longrightarrow> x \<in> set (descendants n)"
proof (induction n arbitrary: m rule: descendants.induct)
  case (1 nm i c ks)
  then show ?case by fastforce
next
  case (2 s)
  then show ?case by simp
qed

lemma found_text: "soup_find P soup = Some m \<Longrightarrow> strip (get_text m) \<in> set (node_texts soup)"
  by (auto simp: node_texts_def dest: soup_find_in)

subsection \<open>The values of the core fields\<close>

lemma name_value: "extract_name soup = ''N/A'' \<or> extract_name soup \<in> set (node_texts soup)"
  by (auto simp: extract_name_def found_text split: option.splits)

lemma headline_value:
  "extract_headline soup = ''N/A'' \<or> extract_headline soup \<in> set (node_texts soup)"
  by (auto simp: extract_headline_def found_text split: option.splits)

lemma location_value:
  "extract_location soup = ''N/A'' \<or> extract_location soup \<in> set (node_texts soup)"
  by (auto simp: extract_location_def found_text split: option.splits)

lemma about_value: "extract_about soup = ''N/A'' \<or> extract_about soup \<in> set (node_texts soup)"
proof (cases "soup_find about_div soup")
  case None
  then show ?thesis by (simp add: extract_about_def)
next
  case (Some sec)
  show ?thesis
  proof (cases "soup_find about_inner sec")
    case None
    with Some show ?thesis by (simp add: extract_about_def)
  next
    case inner: (Some m)
    from soup_find_in [OF Some] soup_find_in [OF inner] have "m \<in> set (descendants soup)"
      by (rule descendants_trans)
    then have "strip (get_text m) \<in> set (node_texts soup)" by (simp add: node_texts_def)
    with Some inner show ?thesis by (simp add: extract_about_def)
  qed
qed

subsection \<open>The two records\<close>

lemma profile_data_shape: "extracted_shape ''N/A'' soup (profile_data u soup)"
  using name_value [of soup] headline_value [of soup] location_value [of soup] about_value [of soup]
  by (simp add: extracted_shape_def profile_data_def core_fields_def list_fields_def
      core_value_def list_value_def)

lemma profile_data_no_error: "\<not> error_shape (profile_data u soup)"
  by (simp add: error_shape_def profile_data_def has_key_def)

lemma error_data_shape: "error_shape (error_data u e)"
  by (simp add: error_shape_def error_data_def has_key_def core_fields_def list_fields_def)

lemma error_data_not_extracted: "\<not> extracted_shape s soup (error_data u e)"
  by (simp add: extracted_shape_def error_data_def core_fields_def core_value_def)

lemma scrape_profile_cases:
  "scrape_profile p u = Some r \<Longrightarrow>
     (\<exists>soup. page_source p = Inr soup \<and> get_error p = None \<and> r = profile_data u soup) \<or>
     (\<exists>e. r = error_data u e \<and> (get_error p = Some e \<or> page_source p = Inl e))"
  by (auto simp: scrape_profile_def split: option.splits sum.splits)

subsection \<open>The scroll loop\<close>

lemma randint_bounds: "a \<le> b \<Longrightarrow> a \<le> randint a b r \<and> randint a b r \<le> b"
proof -
  assume ab: "a \<le> b"
  then have "0 < nat (b - a + 1)" by simp
  then have "r mod nat (b - a + 1) < nat (b - a + 1)" by (rule mod_less_divisor)
  then have "int (r mod nat (b - a + 1)) < b - a + 1" using ab by linarith
  then show ?thesis by (simp add: randint_def)
qed

text \<open>
  With the height fixed at \<open>h\<close> the loop returns from every state: the distance
  \<open>h - pos\<close> shrinks by at least 200 in every iteration. On a normal exit the position
  has reached \<open>h\<close> and overshoots it by less than one step, unless the loop was never
  entered.
\<close>

lemma scroll_loop_fixed_height:
  assumes fixed: "\<forall>n. height p n = Inr h"
  shows "\<exists>r. scroll_loop p k pos h = Some r \<and>
           (case r of Inl e \<Rightarrow> True
            | Inr (pos', h') \<Rightarrow> h' = h \<and> h \<le> pos' \<and> (pos' = pos \<or> pos' < h + 400))"
proof (induction "nat (h - pos)" arbitrary: k pos rule: less_induct)
  case less
  show ?case
  proof (cases "pos < h")
    case False
    then show ?thesis by (subst scroll_loop.simps) simp
  next
    case True
    define d where "d = randint 200 400 (draws p k)"
    have d: "200 \<le> d" "d \<le> 400" unfolding d_def using randint_bounds [of 200 400] by simp_all
    show ?thesis
    proof (cases "scroll_error p k")
      case (Some e)
      with True show ?thesis by (subst scroll_loop.simps) simp
    next
      case None
      show ?thesis
      proof (cases "h \<le> pos + d")
        case stop: True
        with True None fixed d show ?thesis
          by (subst scroll_loop.simps) (simp add: d_def [symmetric])
      next
        case go: False
        with True d have "nat (h - (pos + d)) < nat (h - pos)" by simp
        from less [OF this] obtain r where
          r: "scroll_loop p (Suc k) (pos + d) h = Some r"
             "(case r of Inl e \<Rightarrow> True
               | Inr (pos', h') \<Rightarrow> h' = h \<and> h \<le> pos' \<and> (pos' = pos + d \<or> pos' < h + 400))"
          by blast
        have "scroll_loop p k pos h = scroll_loop p (Suc k) (pos + d) h"
          using True None fixed go
          by (subst scroll_loop.simps) (simp add: d_def [symmetric])
        with r go show ?thesis by (auto split: sum.splits)
      qed
    qed
  qed
qed

lemma scroll_slowly_fixed_height:
  assumes fixed: "\<forall>n. height p n = Inr h"
  shows "\<exists>r. scroll_slowly p = Some r \<and>
           (case r of Inl e \<Rightarrow> True
            | Inr (pos', h') \<Rightarrow> h' = h \<and> h \<le> pos' \<and> (pos' = 0 \<or> pos' < h + 400))"
proof (cases "viewport p")
  case (Inl e)
  with fixed show ?thesis by (simp add: scroll_slowly_def)
next
  case (Inr v)
  with fixed scroll_loop_fixed_height [OF fixed, of 0 0] show ?thesis
    by (simp add: scroll_slowly_def)
qed

lemma loaded_scrolls: "scroll_slowly (loaded h r soup) \<noteq> None"
proof -
  have "\<forall>n. height (loaded h r soup) n = Inr h" by (simp add: loaded_def)
  from scroll_slowly_fixed_height [OF this] show ?thesis by auto
qed

lemma loaded_scraped: "scrape_profile (loaded h r soup) u = Some (profile_data u soup)"
  using loaded_scrolls [of h r soup] by (auto simp: scrape_profile_def) (simp add: loaded_def)+

lemma timed_out_scraped: "scrape_profile timed_out u = Some (error_data u (Raised ''timeout''))"
  by (simp add: scrape_profile_def timed_out_def)

subsection \<open>The batch loop\<close>

lemma tally_profiles: "all_profiles (tally data b) = all_profiles b @ [data]"
  by (simp add: tally_def)

lemma tally_counted: "counted b \<Longrightarrow> counted (tally data b)"
  by (simp add: tally_def counted_def)

text \<open>The loop returns when every visit returns.\<close>

lemma batch_loop_returns:
  "(\<forall>j<length urls. scrape_profile (w (i + j) (urls ! j)) (urls ! j) \<noteq> None)
     \<Longrightarrow> \<exists>b'. batch_loop w i urls b = Some b'"
proof (induction urls arbitrary: i b)
  case Nil
  then show ?case by simp
next
  case (Cons url urls)
  from Cons.prems
  have "scrape_profile (w (i + 0) ((url # urls) ! 0)) ((url # urls) ! 0) \<noteq> None"
    by blast
  then obtain data where data: "scrape_profile (w i url) url = Some data" by auto
  have "\<forall>j<length urls. scrape_profile (w (Suc i + j) (urls ! j)) (urls ! j) \<noteq> None"
  proof (intro allI impI)
    fix j assume "j < length urls"
    then have "Suc j < length (url # urls)" by simp
    with Cons.prems
    have "scrape_profile (w (i + Suc j) ((url # urls) ! Suc j)) ((url # urls) ! Suc j) \<noteq> None"
      by blast
    then show "scrape_profile (w (Suc i + j) (urls ! j)) (urls ! j) \<noteq> None" by simp
  qed
  from Cons.IH [OF this] data show ?case by simp
qed

lemma batch_loop_length:
  "batch_loop w i urls b = Some b'
     \<Longrightarrow> length (all_profiles b') = length (all_profiles b) + length urls"
  by (induction urls arbitrary: i b) (auto simp: tally_profiles split: option.splits)

text \<open>The records collected before are kept, in place.\<close>

lemma batch_loop_prefix:
  "batch_loop w i urls b = Some b'
     \<Longrightarrow> take (length (all_profiles b)) (all_profiles b') = all_profiles b"
proof (induction urls arbitrary: i b)
  case Nil
  then show ?case by simp
next
  case (Cons url urls)
  then obtain data where data: "scrape_profile (w i url) url = Some data"
    and rest: "batch_loop w (Suc i) urls (tally data b) = Some b'"
    by (auto split: option.splits)
  from Cons.IH [OF rest]
  have "take (Suc (length (all_profiles b))) (all_profiles b') = all_profiles b @ [data]"
    by (simp add: tally_profiles)
  then have "take (length (all_profiles b)) (take (Suc (length (all_profiles b))) (all_profiles b'))
      = all_profiles b"
    by simp
  then show ?case by (simp add: min_def)
qed

text \<open>The \<open>j\<close>-th new record is what the \<open>j\<close>-th visit returned.\<close>

lemma batch_loop_nth:
  "batch_loop w i urls b = Some b' \<Longrightarrow> j < length urls
     \<Longrightarrow> scrape_profile (w (i + j) (urls ! j)) (urls ! j)
           = Some (all_profiles b' ! (length (all_profiles b) + j))"
proof (induction urls arbitrary: i b j)
  case Nil
  then show ?case by simp
next
  case (Cons url urls)
  then obtain data where data: "scrape_profile (w i url) url = Some data"
    and rest: "batch_loop w (Suc i) urls (tally data b) = Some b'"
    by (auto split: option.splits)
  show ?case
  proof (cases j)
    case 0
    from batch_loop_prefix [OF rest]
    have "take (Suc (length (all_profiles b))) (all_profiles b') = all_profiles b @ [data]"
      by (simp add: tally_profiles)
    then have "take (Suc (length (all_profiles b))) (all_profiles b') ! length (all_profiles b) = data"
      by simp
    then have "all_profiles b' ! length (all_profiles b) = data" by simp
    with 0 data show ?thesis by simp
  next
    case (Suc j')
    with Cons.prems have "j' < length urls" by simp
    from Cons.IH [OF rest this] Suc show ?thesis by (simp add: tally_profiles)
  qed
qed

lemma batch_loop_counted: "batch_loop w i urls b = Some b' \<Longrightarrow> counted b \<Longrightarrow> counted b'"
  by (induction urls arbitrary: i b) (auto simp: tally_counted split: option.splits)

lemma counted_init: "counted \<lparr>all_profiles = [], successful = 0, failed = 0\<rparr>"
  by (simp add: counted_def)

text \<open>
  On a non-empty list whose visits all return, the batch returns one record per URL, the
  \<open>j\<close>-th being the record of the \<open>j\<close>-th visit, with the derived counts.
\<close>

lemma batch_nonempty:
  assumes ne: "urls \<noteq> []"
    and ret: "\<forall>j<length urls. scrape_profile (w j (urls ! j)) (urls ! j) \<noteq> None"
  shows "\<exists>b. scrape_multiple_profiles w urls = Some (Inr b) \<and>
           length (all_profiles b) = length urls \<and>
           (\<forall>j<length urls. scrape_profile (w j (urls ! j)) (urls ! j) = Some (all_profiles b ! j)) \<and>
           counted b"
proof -
  let ?b0 = "\<lparr>all_profiles = [], successful = 0, failed = 0\<rparr>"
  from ret have "\<forall>j<length urls. scrape_profile (w (0 + j) (urls ! j)) (urls ! j) \<noteq> None"
    by simp
  from batch_loop_returns [OF this] obtain b where b: "batch_loop w 0 urls ?b0 = Some b"
    by blast
  from ne b have 1: "scrape_multiple_profiles w urls = Some (Inr b)"
    by (simp add: scrape_multiple_profiles_def)
  from batch_loop_length [OF b] have 2: "length (all_profiles b) = length urls" by simp
  have 3: "\<forall>j<length urls. scrape_profile (w j (urls ! j)) (urls ! j) = Some (all_profiles b ! j)"
    using batch_loop_nth [OF b] by simp
  from batch_loop_counted [OF b counted_init] have 4: "counted b" .
  from 1 2 3 4 show ?thesis by blast
qed

lemma three_records: "length xs = 3 \<Longrightarrow> xs = [xs ! 0, xs ! 1, xs ! 2]"
  by (cases xs; cases "tl xs"; cases "tl (tl xs)") auto

subsection \<open>The cookie methods\<close>

lemma cookies_added_append: "cookies_added (xs @ ys) = cookies_added xs @ cookies_added ys"
  by (induction xs rule: cookies_added.induct) simp_all

lemma cookies_added_map: "cookies_added (map Add_cookie cs) = cs"
  by (induction cs) simp_all

lemma add_cookies_calls: "calls (add_cookies cs d) = calls d @ map Add_cookie cs"
  by (induction cs arbitrary: d) (simp_all add: add_cookie_def split: option.splits)

lemma save_cookies_file:
  "open_wb_error s (cookies_file s) = None \<Longrightarrow> get_cookies (the_driver s) = Inr cs
     \<Longrightarrow> save_cookies pk s = s\<lparr>files := (files s)(cookies_file s \<mapsto> dumps pk cs)\<rparr>"
  by (simp add: save_cookies_def save_cookies_try_def)

section \<open>The claims\<close>

subsection \<open>C1: one record per input URL\<close>

text \<open>
  C1 says that for every input list of profile URLs the batch result returned by
  \<^verbatim>\<open>scrape_multiple_profiles\<close> holds exactly one record per input URL, in input order.
  On the empty list the call returns no result: the loop and the CSV writer do nothing,
  and the last line of the summary divides by \<^verbatim>\<open>len(profile_urls)\<close>, so a
  \<^verbatim>\<open>ZeroDivisionError\<close> leaves the function before \<^verbatim>\<open>return all_profiles\<close>. (On a
  non-empty list whose visits all return, the claim holds: lemma \<open>batch_nonempty\<close>.)
\<close>

theorem empty_batch_raises: "scrape_multiple_profiles w [] = Some (Inl ZeroDivisionError)"
  by (simp add: scrape_multiple_profiles_def)

theorem empty_batch_raises_witness:
  "scrape_multiple_profiles second_fails [] = Some (Inl ZeroDivisionError)"
  using empty_batch_raises [of second_fails] by simp

subsection \<open>C2: a failed navigation is isolated\<close>

text \<open>
  C2: a page-load or navigation failure while processing one URL produces an error-tagged
  record for that URL only and does not abort the batch. When the \<open>i\<close>-th visit raises \<open>e\<close>
  (in the navigation, or after the scrolling when the page source is read and parsed) and
  the other visits return, the batch returns one record per URL; the \<open>i\<close>-th is the error
  record for its URL, every other one is exactly what its own visit returned, and the two
  counts are those derived from the records. In particular, in a batch of three URLs whose
  second navigation fails and whose other two records carry no error, \<^verbatim>\<open>successful\<close> is 2
  and \<^verbatim>\<open>failed\<close> is 1.
\<close>

theorem navigation_failure_isolated:
  assumes i: "i < length urls"
    and fail: "get_error (w i (urls ! i)) = Some e \<or>
       (get_error (w i (urls ! i)) = None \<and> scroll_slowly (w i (urls ! i)) \<noteq> None \<and>
        page_source (w i (urls ! i)) = Inl e)"
    and others: "\<forall>j<length urls. j \<noteq> i \<longrightarrow> scrape_profile (w j (urls ! j)) (urls ! j) \<noteq> None"
  shows "\<exists>b. scrape_multiple_profiles w urls = Some (Inr b) \<and>
           length (all_profiles b) = length urls \<and>
           all_profiles b ! i = error_data (urls ! i) e \<and>
           has_key ''error'' (all_profiles b ! i) \<and>
           (\<forall>j<length urls. j \<noteq> i \<longrightarrow>
              scrape_profile (w j (urls ! j)) (urls ! j) = Some (all_profiles b ! j)) \<and>
           failed b = length (filter (has_key ''error'') (all_profiles b)) \<and>
           successful b = length (filter (\<lambda>d. \<not> has_key ''error'' d) (all_profiles b)) \<and>
           (length urls = 3 \<and> i = 1 \<and> \<not> has_key ''error'' (all_profiles b ! 0) \<and>
              \<not> has_key ''error'' (all_profiles b ! 2) \<longrightarrow> successful b = 2 \<and> failed b = 1)"
proof -
  from fail have at_i: "scrape_profile (w i (urls ! i)) (urls ! i) = Some (error_data (urls ! i) e)"
    by (auto simp: scrape_profile_def)
  with others have ret: "\<forall>j<length urls. scrape_profile (w j (urls ! j)) (urls ! j) \<noteq> None"
    by (metis option.distinct(1))
  from i have ne: "urls \<noteq> []" by auto
  from batch_nonempty [where w = w and urls = urls, OF ne ret] obtain b where
    b: "scrape_multiple_profiles w urls = Some (Inr b)"
    and len: "length (all_profiles b) = length urls"
    and nth: "\<forall>j<length urls. scrape_profile (w j (urls ! j)) (urls ! j) = Some (all_profiles b ! j)"
    and cnt: "counted b"
    by blast
  from nth i at_i have rec_i: "all_profiles b ! i = error_data (urls ! i) e" by simp
  then have err_i: "has_key ''error'' (all_profiles b ! i)"
    by (simp add: error_data_def has_key_def)
  have scenario: "successful b = 2 \<and> failed b = 1"
    if "length urls = 3" "i = 1" "\<not> has_key ''error'' (all_profiles b ! 0)"
       "\<not> has_key ''error'' (all_profiles b ! 2)"
  proof -
    from that len have "length (all_profiles b) = 3" by simp
    then have "all_profiles b = [all_profiles b ! 0, all_profiles b ! 1, all_profiles b ! 2]"
      by (rule three_records)
    then obtain r0 r1 r2 where rs: "all_profiles b = [r0, r1, r2]" by blast
    with that err_i have "\<not> has_key ''error'' r0" "has_key ''error'' r1" "\<not> has_key ''error'' r2"
      by simp_all
    with cnt rs show ?thesis by (simp add: counted_def)
  qed
  from b len rec_i err_i nth cnt scenario show ?thesis
    unfolding counted_def by blast
qed

theorem navigation_failure_isolated_witness:
  "1 < length three_urls \<and>
   get_error (second_fails 1 (three_urls ! 1)) = Some (Raised ''timeout'') \<and>
   scrape_profile (second_fails 0 (three_urls ! 0)) (three_urls ! 0) \<noteq> None \<and>
   scrape_profile (second_fails 2 (three_urls ! 2)) (three_urls ! 2) \<noteq> None \<and>
   (\<exists>b. scrape_multiple_profiles second_fails three_urls = Some (Inr b) \<and>
      length (all_profiles b) = 3 \<and> has_key ''error'' (all_profiles b ! 1) \<and>
      successful b = 2 \<and> failed b = 1)"
proof -
  have h1: "1 < length three_urls" by (simp add: three_urls_def)
  have h2: "get_error (second_fails 1 (three_urls ! 1)) = Some (Raised ''timeout'')"
    by (simp add: second_fails_def timed_out_def)
  then have h2': "get_error (second_fails 1 (three_urls ! 1)) = Some (Raised ''timeout'') \<or>
      (get_error (second_fails 1 (three_urls ! 1)) = None \<and>
       scroll_slowly (second_fails 1 (three_urls ! 1)) \<noteq> None \<and>
       page_source (second_fails 1 (three_urls ! 1)) = Inl (Raised ''timeout''))"
    by (rule disjI1)
  have v0: "scrape_profile (second_fails 0 (three_urls ! 0)) (three_urls ! 0)
      = Some (profile_data (three_urls ! 0) jane_soup)"
    by (simp add: second_fails_def loaded_scraped)
  have v2: "scrape_profile (second_fails 2 (three_urls ! 2)) (three_urls ! 2)
      = Some (profile_data (three_urls ! 2) jane_soup)"
    by (simp add: second_fails_def loaded_scraped)
  have h3: "\<forall>j<length three_urls. j \<noteq> 1 \<longrightarrow>
      scrape_profile (second_fails j (three_urls ! j)) (three_urls ! j) \<noteq> None"
    by (simp add: second_fails_def loaded_scraped)
  from navigation_failure_isolated [where w = second_fails and urls = three_urls and i = 1, OF h1 h2' h3]
  obtain b where
    b: "scrape_multiple_profiles second_fails three_urls = Some (Inr b)"
       "length (all_profiles b) = length three_urls"
       "has_key ''error'' (all_profiles b ! 1)"
    and nth: "\<forall>j<length three_urls. j \<noteq> 1 \<longrightarrow>
       scrape_profile (second_fails j (three_urls ! j)) (three_urls ! j) = Some (all_profiles b ! j)"
    and scenario: "length three_urls = 3 \<and> (1::nat) = 1 \<and> \<not> has_key ''error'' (all_profiles b ! 0) \<and>
       \<not> has_key ''error'' (all_profiles b ! 2) \<longrightarrow> successful b = 2 \<and> failed b = 1"
    by blast
  have len3: "length three_urls = 3" by (simp add: three_urls_def)
  from nth v0 len3 have "all_profiles b ! 0 = profile_data (three_urls ! 0) jane_soup" by simp
  then have ok0: "\<not> has_key ''error'' (all_profiles b ! 0)"
    by (simp add: profile_data_def has_key_def)
  from nth v2 len3 have "all_profiles b ! 2 = profile_data (three_urls ! 2) jane_soup" by simp
  then have ok2: "\<not> has_key ''error'' (all_profiles b ! 2)"
    by (simp add: profile_data_def has_key_def)
  from scenario len3 ok0 ok2 have "successful b = 2 \<and> failed b = 1" by simp
  with b len3 have "\<exists>b. scrape_multiple_profiles second_fails three_urls = Some (Inr b) \<and>
      length (all_profiles b) = 3 \<and> has_key ''error'' (all_profiles b ! 1) \<and>
      successful b = 2 \<and> failed b = 1"
    by auto
  with h1 h2 v0 v2 show ?thesis by simp
qed

subsection \<open>C3: the two shapes of a record\<close>

text \<open>
  C3, as amended: every record returned by \<^verbatim>\<open>scrape_profile\<close> has exactly one of two
  shapes. Either all core fields (name, headline, location, about) are present, each with
  the stripped text of a node of the snapshot or the sentinel \<^verbatim>\<open>N/A\<close>, and the three list
  fields are present; or \<^verbatim>\<open>error\<close> is set and no core or list field is present. The
  claim names the sentinel \<^verbatim>\<open>unknown\<close>; the code writes \<^verbatim>\<open>N/A\<close>.
\<close>

theorem record_shape:
  "scrape_profile p u = Some r \<Longrightarrow>
     (snapshot_shape ''N/A'' p r \<and> \<not> error_shape r) \<or>
     (\<not> snapshot_shape ''N/A'' p r \<and> error_shape r)"
  using profile_data_shape profile_data_no_error error_data_shape error_data_not_extracted
  by (auto simp: snapshot_shape_def dest!: scrape_profile_cases split: sum.splits)

theorem record_shape_witness:
  "scrape_profile (loaded 500 0 jane_soup) ''https://www.linkedin.com/in/jane/''
     = Some (profile_data ''https://www.linkedin.com/in/jane/'' jane_soup) \<and>
   snapshot_shape ''N/A'' (loaded 500 0 jane_soup)
     (profile_data ''https://www.linkedin.com/in/jane/'' jane_soup) \<and>
   \<not> error_shape (profile_data ''https://www.linkedin.com/in/jane/'' jane_soup)"
proof -
  have ev: "scrape_profile (loaded 500 0 jane_soup) ''https://www.linkedin.com/in/jane/''
      = Some (profile_data ''https://www.linkedin.com/in/jane/'' jane_soup)"
    by (rule loaded_scraped)
  have ne: "\<not> error_shape (profile_data ''https://www.linkedin.com/in/jane/'' jane_soup)"
    by (simp add: error_shape_def profile_data_def has_key_def)
  from record_shape [OF ev] ne ev show ?thesis by blast
qed

text \<open>
  With the sentinel \<^verbatim>\<open>unknown\<close> the claim fails on a page without any matching node:
  its record has neither shape.
\<close>

theorem record_shape_unknown_counterexample:
  "scrape_profile (loaded 500 0 blank_soup) ''https://www.linkedin.com/in/nobody/''
     = Some (profile_data ''https://www.linkedin.com/in/nobody/'' blank_soup) \<and>
   map_of (profile_data ''https://www.linkedin.com/in/nobody/'' blank_soup) ''name''
     = Some (Str ''N/A'') \<and>
   \<not> snapshot_shape ''unknown'' (loaded 500 0 blank_soup)
     (profile_data ''https://www.linkedin.com/in/nobody/'' blank_soup) \<and>
   \<not> error_shape (profile_data ''https://www.linkedin.com/in/nobody/'' blank_soup)"
  by code_simp

subsection \<open>C4: the caps of the list fields\<close>

text \<open>
  C4: whatever the snapshot, the extracted experience list has at most 5 entries, the
  education list at most 3 and the skills list at most 10.
\<close>

theorem list_field_caps:
  "length (extract_experience soup) \<le> 5 \<and> length (extract_education soup) \<le> 3 \<and>
   length (extract_skills soup) \<le> 10"
proof -
  have e: "length (extract_experience soup) \<le> 5"
    by (simp add: extract_experience_def Let_def split: option.split)
  have d: "length (extract_education soup) \<le> 3"
    by (simp add: extract_education_def Let_def split: option.split)
  have "length (filter P (map f (take 10 xs))) \<le> 10"
    for P :: "string \<Rightarrow> bool" and f and xs :: "node list"
    by (rule order_trans [OF length_filter_le]) simp
  then have s: "length (extract_skills soup) \<le> 10"
    by (simp add: extract_skills_def Let_def split: option.split)
  from e d s show ?thesis by simp
qed

text \<open>On a page with 7, 4 and 12 matching nodes the caps are reached.\<close>

theorem list_field_caps_witness:
  "length (extract_experience crowded_soup) = 5 \<and> length (extract_education crowded_soup) = 3 \<and>
   length (extract_skills crowded_soup) = 10"
proof -
  have "5 \<le> length (extract_experience crowded_soup)" by code_simp
  moreover have "3 \<le> length (extract_education crowded_soup)" by code_simp
  moreover have "10 \<le> length (extract_skills crowded_soup)" by code_simp
  ultimately show ?thesis using list_field_caps [of crowded_soup] by simp
qed

subsection \<open>C5: first match, trimmed, or the sentinel\<close>




subsection \<open>C6: the record is a function of the snapshot\<close>



subsection \<open>C7: the cookie round trip\<close>

text \<open>
  C7: saving a cookie set and loading it restores the same cookie set, every cookie with
  its name, value, domain, path and expiry. A cookie set is well formed when pickle gives
  it back from what it wrote for it. Then, if the file could be written, a later
  \<^verbatim>\<open>load_cookies\<close> on a state with that file (the file opens, the site loads) returns
  \<^verbatim>\<open>True\<close> and hands to the browser exactly the saved cookies, in their order, after
  whatever it was handed before. A cookie the browser refuses is skipped without
  stopping the others.
\<close>

theorem cookie_round_trip:
  assumes "open_wb_error s (cookies_file s) = None"
    and "get_cookies (the_driver s) = Inr cs"
    and "loads pk (dumps pk cs) = Inr cs"
    and "cookies_file t = cookies_file s"
    and "files t (cookies_file t) = files (save_cookies pk s) (cookies_file s)"
    and "navigate_error (the_driver t) ''https://www.linkedin.com'' = None"
    and "open_rb_error t (cookies_file t) = None"
  shows "fst (load_cookies pk t) = True \<and>
         cookies_added (calls (the_driver (snd (load_cookies pk t))))
           = cookies_added (calls (the_driver t)) @ cs"
proof -
  from assms(1,2) have "files (save_cookies pk s) (cookies_file s) = Some (dumps pk cs)"
    by (simp add: save_cookies_file)
  with assms have f: "files t (cookies_file t) = Some (dumps pk cs)" by simp
  have "load_cookies_try pk (dumps pk cs) t =
     (Inr True, t\<lparr>the_driver :=
        add_cookies cs ((the_driver t)\<lparr>calls := calls (the_driver t) @ [Navigate ''https://www.linkedin.com'']\<rparr>)\<rparr>)"
    using assms(3,6,7) by (simp add: load_cookies_try_def driver_get_def)
  with f show ?thesis
    by (simp add: load_cookies_def add_cookies_calls cookies_added_append cookies_added_map)
qed

theorem cookie_round_trip_witness:
  "open_wb_error first_run (cookies_file first_run) = None \<and>
   get_cookies (the_driver first_run) = Inr [li_at, jsession] \<and>
   loads toy_pickle (dumps toy_pickle [li_at, jsession]) = Inr [li_at, jsession] \<and>
   cookies_file next_run = cookies_file first_run \<and>
   files next_run (cookies_file next_run)
     = files (save_cookies toy_pickle first_run) (cookies_file first_run) \<and>
   navigate_error (the_driver next_run) ''https://www.linkedin.com'' = None \<and>
   open_rb_error next_run (cookies_file next_run) = None \<and>
   fst (load_cookies toy_pickle next_run) = True \<and>
   cookies_added (calls (the_driver (snd (load_cookies toy_pickle next_run)))) = [li_at, jsession]"
proof -
  have h1: "open_wb_error first_run (cookies_file first_run) = None"
    by (simp add: first_run_def)
  have h2: "get_cookies (the_driver first_run) = Inr [li_at, jsession]"
    by (simp add: first_run_def logged_in_def)
  have h3: "loads toy_pickle (dumps toy_pickle [li_at, jsession]) = Inr [li_at, jsession]"
    by (simp add: toy_pickle_def)
  have sv: "save_cookies toy_pickle first_run
      = first_run\<lparr>files := (files first_run)(cookies_file first_run \<mapsto> dumps toy_pickle [li_at, jsession])\<rparr>"
    using h1 h2 by (rule save_cookies_file)
  have h4: "cookies_file next_run = cookies_file first_run"
    by (simp add: next_run_def sv)
  have h5: "files next_run (cookies_file next_run)
      = files (save_cookies toy_pickle first_run) (cookies_file first_run)"
    by (simp add: next_run_def sv)
  have h6: "navigate_error (the_driver next_run) ''https://www.linkedin.com'' = None"
    by (simp add: next_run_def logged_in_def)
  have h7: "open_rb_error next_run (cookies_file next_run) = None"
    by (simp add: next_run_def sv) (simp add: first_run_def)
  have fresh: "calls (the_driver next_run) = []"
    by (simp add: next_run_def logged_in_def)
  from cookie_round_trip [OF h1 h2 h3 h4 h5 h6 h7] fresh h1 h2 h3 h4 h5 h6 h7
  show ?thesis by simp
qed

subsection \<open>C8: the cookie methods do not raise\<close>



subsection \<open>C9: the scroll loop terminates on a page of fixed height\<close>

text \<open>
  C9: when every measurement of the document height gives the same \<open>h\<close>,
  \<^verbatim>\<open>_scroll_slowly\<close> returns. If no browser call raised, it stops with the position at
  or beyond \<open>h\<close>, by less than one step unless no step was needed. Every step is a random
  integer between 200 and 400, so each iteration advances the position by at least 200.
\<close>

theorem scroll_terminates_at_fixed_height:
  assumes "\<forall>n. height p n = Inr h"
  shows "(\<exists>r. scroll_slowly p = Some r \<and>
            (case r of Inl e \<Rightarrow> True
             | Inr (pos, tot) \<Rightarrow> tot = h \<and> h \<le> pos \<and> (pos = 0 \<or> pos < h + 400))) \<and>
         200 \<le> randint 200 400 (draws p k) \<and> randint 200 400 (draws p k) \<le> 400"
  using scroll_slowly_fixed_height [OF assms] randint_bounds [of 200 400 "draws p k"]
  by simp

theorem scroll_terminates_at_fixed_height_witness:
  "(\<forall>n. height (loaded 500 0 blank_soup) n = Inr 500) \<and>
   scroll_slowly (loaded 500 0 blank_soup) = Some (Inr (603, 500)) \<and>
   randint 200 400 (draws (loaded 500 0 blank_soup) 2) = 202"
proof -
  have h: "\<forall>n. height (loaded 500 0 blank_soup) n = Inr 500" by (simp add: loaded_def)
  have s: "scroll_slowly (loaded 500 0 blank_soup) = Some (Inr (603, 500))" by code_simp
  have r: "randint 200 400 (draws (loaded 500 0 blank_soup) 2) = 202" by code_simp
  from scroll_terminates_at_fixed_height [OF h, of 2] h s r show ?thesis by simp
qed

subsection \<open>C10: an error record carries its URL\<close>

text \<open>
  C10: every error-tagged record returned by \<^verbatim>\<open>scrape_profile\<close> carries the input
  profile URL in its \<^verbatim>\<open>url\<close> field, next to \<^verbatim>\<open>error\<close>; these are its only keys.
\<close>

theorem error_record_url:
  "scrape_profile p u = Some r \<Longrightarrow> has_key ''error'' r \<Longrightarrow>
     map_of r ''url'' = Some (Str u) \<and> keys r = [''url'', ''error'']"
  by (auto simp: profile_data_def error_data_def has_key_def keys_def dest!: scrape_profile_cases)

theorem error_record_url_witness:
  "scrape_profile timed_out ''https://www.linkedin.com/in/b/''
     = Some [(''url'', Str ''https://www.linkedin.com/in/b/''), (''error'', Str ''timeout'')] \<and>
   has_key ''error'' [(''url'', Str ''https://www.linkedin.com/in/b/''), (''error'', Str ''timeout'')] \<and>
   map_of [(''url'', Str ''https://www.linkedin.com/in/b/''), (''error'', Str ''timeout'')] ''url''
     = Some (Str ''https://www.linkedin.com/in/b/'')"
proof -
  have ev: "scrape_profile timed_out ''https://www.linkedin.com/in/b/''
      = Some [(''url'', Str ''https://www.linkedin.com/in/b/''), (''error'', Str ''timeout'')]"
    by (simp add: timed_out_scraped error_data_def)
  have hk: "has_key ''error'' [(''url'', Str ''https://www.linkedin.com/in/b/''), (''error'', Str ''timeout'')]"
    by (simp add: has_key_def)
  from error_record_url [OF ev hk] ev hk show ?thesis by simp
qed

end
